theory Spec2Isabelle
  imports Main
begin

section \<open>Communicators and the communicator stack\<close>

text \<open>
  Embedding of \<^verbatim>\<open>cogent/util/parallel.py\<close>. Python integers are \<open>int\<close>; an exception is
  the \<open>Inl\<close> branch of a sum, returned together with the state the raise leaves behind.
\<close>

datatype error = AssertionError | IndexError | StopIteration

text \<open>
  A communicator object as one process sees it. The first field of either constructor is
  the identity of the Python object (what \<^verbatim>\<open>is\<close> compares). \<open>FakeCommunicator\<close> is the
  class of that name; \<open>MPIComm\<close> stands for an mpi4py communicator, of which the code
  reads only the size of the group and the rank of the calling process.
\<close>

datatype comm =
    FakeCommunicator (oid: nat)
  | MPIComm (oid: nat) (mpi_size: int) (mpi_rank: int)

fun Get_rank :: "comm \<Rightarrow> int" where
  "Get_rank (FakeCommunicator _) = 0"
| "Get_rank (MPIComm _ _ r) = r"

fun Get_size :: "comm \<Rightarrow> int" where
  "Get_size (FakeCommunicator _) = 1"
| "Get_size (MPIComm _ s _) = s"

text \<open>Python's \<^verbatim>\<open>a is b\<close> on communicator objects.\<close>

definition is_same :: "comm \<Rightarrow> comm \<Rightarrow> bool" where
  "is_same a b = (oid a = oid b)"

text \<open>
  The state of one process: the module-level list \<^verbatim>\<open>_ParallelisationStack\<close> (its top is
  the last element, as \<^verbatim>\<open>append\<close> and \<^verbatim>\<open>pop()\<close> use it), the next unused object
  identity, and the log of the \<^verbatim>\<open>Barrier()\<close> calls this process has made, each recorded
  by the identity of the communicator it was called on.
\<close>

record world =
  ParallelisationStack :: "comm list"
  next_oid :: nat
  barriers :: "nat list"

definition new_FakeCommunicator :: "world \<Rightarrow> comm \<times> world" where
  "new_FakeCommunicator w =
     (FakeCommunicator (next_oid w), w\<lparr>next_oid := Suc (next_oid w)\<rparr>)"

text \<open>
  \<^verbatim>\<open>Barrier()\<close>, for a call that returns: the call leaves the data of the process as it
  is, and the model records that it was made. \<^verbatim>\<open>_FakeCommunicator.Barrier\<close> is \<^verbatim>\<open>pass\<close>
  and returns at once. A barrier of an MPI communicator returns only when every member of
  the communicator has made the matching call, so whether it returns is not decided by
  the calling process alone: \<open>spmd_step\<close> below decides it for all ranks together.
\<close>

definition Barrier :: "comm \<Rightarrow> world \<Rightarrow> world" where
  "Barrier c w = w\<lparr>barriers := barriers w @ [oid c]\<rparr>"

definition push :: "comm \<Rightarrow> world \<Rightarrow> world" where
  "push context w = w\<lparr>ParallelisationStack := ParallelisationStack w @ [context]\<rparr>"

text \<open>
  \<^verbatim>\<open>pop(context=None)\<close>: \<^verbatim>\<open>list.pop()\<close> raises IndexError on an empty list and otherwise
  removes the last element; the assertion runs after the removal.
\<close>

definition pop :: "comm option \<Rightarrow> world \<Rightarrow> (error + comm) \<times> world" where
  "pop context w =
     (if ParallelisationStack w = [] then (Inl IndexError, w)
      else
        (let context2 = last (ParallelisationStack w);
             w' = w\<lparr>ParallelisationStack := butlast (ParallelisationStack w)\<rparr>
         in case context of
              None \<Rightarrow> (Inr context2, w')
            | Some c \<Rightarrow>
                if is_same context2 c then (Inr context2, w')
                else (Inl AssertionError, w')))"

definition getCommunicator :: "world \<Rightarrow> error + comm" where
  "getCommunicator w =
     (if ParallelisationStack w = [] then Inl IndexError
      else Inr (last (ParallelisationStack w)))"

section \<open>The group splitter\<close>

text \<open>
  Modelled from the spec: \<^verbatim>\<open>Split\<close> of an mpi4py communicator is a collective call of
  an external library. Every member runs the same call site with its own rank, so the
  colour and the key a member supplies are functions of its rank in the communicator
  being split. The new communicator of the member with rank \<open>r\<close> contains exactly the
  ranks that supplied the colour \<open>r\<close> supplied, ordered by key (ties keep rank order);
  \<open>split_members\<close> lists them by their ranks in the communicator being split.
\<close>

definition split_members :: "int \<Rightarrow> (int \<Rightarrow> int) \<Rightarrow> (int \<Rightarrow> int) \<Rightarrow> int \<Rightarrow> int list" where
  "split_members S colour key r = sort_key key (filter (\<lambda>q. colour q = colour r) [0..S - 1])"

fun index_of :: "'a \<Rightarrow> 'a list \<Rightarrow> nat" where
  "index_of x [] = 0"
| "index_of x (y # ys) = (if x = y then 0 else Suc (index_of x ys))"

definition Split :: "comm \<Rightarrow> (int \<Rightarrow> int) \<Rightarrow> (int \<Rightarrow> int) \<Rightarrow> world \<Rightarrow> comm \<times> world" where
  "Split c colour key w =
     (let members = split_members (Get_size c) colour key (Get_rank c)
      in (MPIComm (next_oid w) (int (length members)) (int (index_of (Get_rank c) members)),
          w\<lparr>next_oid := Suc (next_oid w)\<rparr>))"

text \<open>
  \<^verbatim>\<open>getSplitCommunicators(jobs)\<close>. The current communicator is read before the
  assertion. The last branch is reached only with \<open>1 < jobs < size\<close>, hence never with a
  \<open>FakeCommunicator\<close> as the current communicator.
\<close>

definition getSplitCommunicators :: "int \<Rightarrow> world \<Rightarrow> (error + comm \<times> comm) \<times> world" where
  "getSplitCommunicators jobs w =
     (case getCommunicator w of
        Inl e \<Rightarrow> (Inl e, w)
      | Inr comm \<Rightarrow>
          if \<not> jobs > 0 then (Inl AssertionError, w)
          else
            (let size = Get_size comm; rank = Get_rank comm;
                 group_count = min jobs size
             in if group_count = 1 then
                  (let (fake, w1) = new_FakeCommunicator w in (Inr (fake, comm), w1))
                else if group_count = size then
                  (let (fake, w1) = new_FakeCommunicator w in (Inr (comm, fake), w1))
                else
                  (let (next, w1) = Split comm (\<lambda>rank. rank div group_count) (\<lambda>rank. rank) w;
                       (sub, w2) = Split comm (\<lambda>rank. rank mod group_count) (\<lambda>rank. rank) w1
                   in (Inr (next, sub), w2))))"

text \<open>
  The groups the last branch forms in a communicator of size \<open>S\<close> with
  \<open>group_count = G\<close>: \<open>sub\<close> (the inner communicator) of rank \<open>r\<close> holds the ranks
  with the residue of \<open>r\<close> modulo \<open>G\<close>, \<open>next\<close> (the outer one) those with the quotient
  of \<open>r\<close> by \<open>G\<close>; \<open>inner_groups\<close> and \<open>outer_groups\<close> collect the groups of all ranks.
\<close>

definition inner_group :: "int \<Rightarrow> int \<Rightarrow> int \<Rightarrow> int list" where
  "inner_group S G r = split_members S (\<lambda>rank. rank mod G) (\<lambda>rank. rank) r"

definition outer_group :: "int \<Rightarrow> int \<Rightarrow> int \<Rightarrow> int list" where
  "outer_group S G r = split_members S (\<lambda>rank. rank div G) (\<lambda>rank. rank) r"

definition inner_groups :: "int \<Rightarrow> int \<Rightarrow> int set set" where
  "inner_groups S G = (\<lambda>r. set (inner_group S G r)) ` {0..S - 1}"

definition outer_groups :: "int \<Rightarrow> int \<Rightarrow> int set set" where
  "outer_groups S G = (\<lambda>r. set (outer_group S G r)) ` {0..S - 1}"

section \<open>The work distributor\<close>

text \<open>Python's \<^verbatim>\<open>values[i]\<close>: a negative index counts from the end.\<close>

definition py_index :: "'a list \<Rightarrow> int \<Rightarrow> error + 'a" where
  "py_index xs i =
     (if 0 \<le> i \<and> i < int (length xs) then Inr (xs ! nat i)
      else if - int (length xs) \<le> i \<and> i < 0 then Inr (xs ! nat (int (length xs) + i))
      else Inl IndexError)"

record 'a ParallelIter =
  pi_values :: "'a list"
  pi_leftover :: comm
  pi_cpus :: comm
  pi_i :: int

definition ParallelIter_init ::
  "'a list \<Rightarrow> comm \<Rightarrow> comm \<Rightarrow> world \<Rightarrow> 'a ParallelIter \<times> world" where
  "ParallelIter_init values cpus leftover w =
     (\<lparr>pi_values = values, pi_leftover = leftover, pi_cpus = cpus, pi_i = Get_rank cpus\<rparr>,
      push leftover w)"

definition ParallelIter_next ::
  "'a ParallelIter \<Rightarrow> world \<Rightarrow> (error + 'a) \<times> 'a ParallelIter \<times> world" where
  "ParallelIter_next self w =
     (let w1 = Barrier (pi_leftover self) w
      in if pi_i self \<ge> int (length (pi_values self)) then (Inl StopIteration, self, w1)
         else
           (case py_index (pi_values self) (pi_i self) of
              Inl e \<Rightarrow> (Inl e, self, w1)
            | Inr result \<Rightarrow>
                (Inr result, self\<lparr>pi_i := pi_i self + Get_size (pi_cpus self)\<rparr>, w1)))"

definition ParallelIter_del :: "'a ParallelIter \<Rightarrow> world \<Rightarrow> (error + comm) \<times> world" where
  "ParallelIter_del self w = pop (Some (pi_leftover self)) (Barrier (pi_cpus self) w)"

record 'a localShareOf =
  ls_values :: "'a list"
  ls_cpus :: comm
  ls_leftover :: comm

definition localShareOf_init :: "'a list \<Rightarrow> world \<Rightarrow> (error + 'a localShareOf) \<times> world" where
  "localShareOf_init values w =
     (case getSplitCommunicators (int (length values)) w of
        (Inl e, w') \<Rightarrow> (Inl e, w')
      | (Inr (cpus, leftover), w') \<Rightarrow>
          (Inr \<lparr>ls_values = values, ls_cpus = cpus, ls_leftover = leftover\<rparr>, w'))"

definition localShareOf_iter :: "'a localShareOf \<Rightarrow> world \<Rightarrow> 'a ParallelIter \<times> world" where
  "localShareOf_iter self w =
     ParallelIter_init (ls_values self) (ls_cpus self) (ls_leftover self) w"

text \<open>
  Modelled from the spec: a barrier blocks the calling process until every member of the
  communicator has called it. All ranks \<open>0, \<dots>, S - 1\<close> of an MPI communicator of size
  \<open>S\<close> run \<^verbatim>\<open>for task in localShareOf(values): ...\<close> with a body that neither breaks
  nor raises. \<open>leftover_members\<close> lists the ranks that share the \<open>leftover\<close> communicator
  of rank \<open>r\<close>, following the three branches of \<^verbatim>\<open>getSplitCommunicators\<close>: the whole
  communicator, the rank alone (a \<open>FakeCommunicator\<close>), or the ranks of equal
  \<open>rank mod group_count\<close>.
\<close>

definition leftover_members :: "int \<Rightarrow> int \<Rightarrow> int \<Rightarrow> int list" where
  "leftover_members S jobs r =
     (let group_count = min jobs S
      in if group_count = 1 then [0..S - 1]
         else if group_count = S then [r]
         else inner_group S group_count r)"

text \<open>
  Where one rank stands: its construction of the distributor raised; or it is inside a
  call of \<^verbatim>\<open>next()\<close>, at the barrier, having been handed the items listed; or a call of
  \<^verbatim>\<open>next()\<close> raised and ended its loop.
\<close>

datatype 'a rank_state =
    Failed error
  | InNext "'a ParallelIter" world "'a list"
  | LoopEnded error "'a ParallelIter" world "'a list"

fun waiting :: "'a rank_state \<Rightarrow> bool" where
  "waiting (InNext _ _ _) = True"
| "waiting _ = False"

fun yielded :: "'a rank_state \<Rightarrow> 'a list" where
  "yielded (Failed _) = []"
| "yielded (InNext _ _ ys) = ys"
| "yielded (LoopEnded _ _ _ ys) = ys"

definition start_rank :: "'a list \<Rightarrow> int \<Rightarrow> int \<Rightarrow> 'a rank_state" where
  "start_rank values S r =
     (case localShareOf_init values
             \<lparr>ParallelisationStack = [MPIComm 0 S r], next_oid = 1, barriers = []\<rparr> of
        (Inl e, w) \<Rightarrow> Failed e
      | (Inr share, w) \<Rightarrow>
          (case localShareOf_iter share w of (it, w') \<Rightarrow> InNext it w' []))"

definition spmd_start :: "'a list \<Rightarrow> int \<Rightarrow> 'a rank_state list" where
  "spmd_start values S = map (start_rank values S) [0..S - 1]"

text \<open>
  The barrier of a waiting rank has returned: the rest of its \<^verbatim>\<open>next()\<close> runs. An item
  goes to the loop body, after which the loop calls \<^verbatim>\<open>next()\<close> again; an exception ends
  the loop.
\<close>

fun release :: "'a rank_state \<Rightarrow> 'a rank_state" where
  "release (InNext it w ys) =
     (case ParallelIter_next it w of
        (Inr result, it', w') \<Rightarrow> InNext it' w' (ys @ [result])
      | (Inl e, it', w') \<Rightarrow> LoopEnded e it' w' ys)"
| "release st = st"

text \<open>
  One round: the barrier of a waiting rank returns iff every rank sharing its \<open>leftover\<close>
  communicator is waiting too. A rank whose loop has ended makes no further call on that
  communicator, so a state that a round leaves unchanged stays as it is for ever.
\<close>

definition spmd_step :: "'a list \<Rightarrow> int \<Rightarrow> 'a rank_state list \<Rightarrow> 'a rank_state list" where
  "spmd_step values S sts =
     map (\<lambda>r. if waiting (sts ! nat r) \<and>
                  list_all (\<lambda>q. waiting (sts ! nat q))
                    (leftover_members S (int (length values)) r)
               then release (sts ! nat r)
               else sts ! nat r)
       [0..S - 1]"

text \<open>
  The indices \<open>g, g + s, g + 2 s, \<dots>\<close> below \<open>N\<close>, in increasing order: the stripe of
  stride position \<open>g\<close> at stride \<open>s\<close>.
\<close>

definition stripe :: "int \<Rightarrow> int \<Rightarrow> int \<Rightarrow> int list" where
  "stripe g s N = filter (\<lambda>k. g \<le> k \<and> (k - g) mod s = 0) [0..N - 1]"

text \<open>A communicator whose rank lies within its size.\<close>

definition wf_comm :: "comm \<Rightarrow> bool" where
  "wf_comm c = (0 \<le> Get_rank c \<and> Get_rank c < Get_size c)"

section \<open>The phased random number generator\<close>

text \<open>
  The wrapped generator is any object with \<^verbatim>\<open>random()\<close> and \<^verbatim>\<open>seed(arg)\<close>: a
  state type \<open>'s\<close> with the two methods as functions on it. \<open>ParaRandom\<close> holds the
  only reference the model follows, so the generator's state is a field of the wrapper.
\<close>

record ('s, 'a, 'v) generator =
  gen_random :: "'s \<Rightarrow> 'a \<times> 's"
  gen_seed :: "'v \<Rightarrow> 's \<Rightarrow> 's"

record 's ParaRandom =
  pr_rng :: 's
  pr_num_proc :: int
  pr_rank :: int

text \<open>
  The loop \<^verbatim>\<open>for i in range(n): self._rng.random()\<close>; \<^verbatim>\<open>range(n)\<close> is empty for
  \<open>n \<le> 0\<close>, which is \<open>nat n = 0\<close> at the call sites.
\<close>

fun skip_draws :: "('s, 'a, 'v) generator \<Rightarrow> nat \<Rightarrow> 's \<Rightarrow> 's" where
  "skip_draws g 0 s = s"
| "skip_draws g (Suc n) s = skip_draws g n (snd (gen_random g s))"

definition ParaRandom_init ::
  "('s, 'a, 'v) generator \<Rightarrow> 's \<Rightarrow> int \<Rightarrow> int \<Rightarrow> 's ParaRandom" where
  "ParaRandom_init g random_number num_proc rank =
     \<lparr>pr_rng = skip_draws g (nat rank) random_number,
      pr_num_proc = num_proc,
      pr_rank = rank\<rparr>"

definition ParaRandom_random ::
  "('s, 'a, 'v) generator \<Rightarrow> 's ParaRandom \<Rightarrow> 'a \<times> 's ParaRandom" where
  "ParaRandom_random g p =
     (let (r, s1) = gen_random g (pr_rng p);
          s2 = skip_draws g (nat (pr_num_proc p)) s1
      in (r, p\<lparr>pr_rng := s2\<rparr>))"

definition ParaRandom_seed ::
  "('s, 'a, 'v) generator \<Rightarrow> 'v \<Rightarrow> 's ParaRandom \<Rightarrow> 's ParaRandom" where
  "ParaRandom_seed g arg p = p\<lparr>pr_rng := gen_seed g arg (pr_rng p)\<rparr>"

text \<open>The result of call number \<open>n\<close> (counted from 0) of \<^verbatim>\<open>random()\<close> on a wrapper.\<close>

fun nth_random :: "('s, 'a, 'v) generator \<Rightarrow> nat \<Rightarrow> 's ParaRandom \<Rightarrow> 'a" where
  "nth_random g 0 p = fst (ParaRandom_random g p)"
| "nth_random g (Suc n) p = nth_random g n (snd (ParaRandom_random g p))"

text \<open>
  The reference sequence: draw number \<open>k\<close> (counted from 0) of the unwrapped generator
  started in state \<open>s\<close>.
\<close>

definition base_draw :: "('s, 'a, 'v) generator \<Rightarrow> 's \<Rightarrow> nat \<Rightarrow> 'a" where
  "base_draw g s k = fst (gen_random g (((snd \<circ> gen_random g) ^^ k) s))"

text \<open>
  A generator for concrete evaluation: its state is a counter, each draw returns the
  counter and increments it, and reseeding sets it. Draw \<open>k\<close> from seed \<open>v\<close> is \<open>v + k\<close>.
\<close>

definition counter_gen :: "(nat, nat, nat) generator" where
  "counter_gen = \<lparr>gen_random = (\<lambda>s. (s, Suc s)), gen_seed = (\<lambda>v s. v)\<rparr>"

section \<open>Properties of the phased random number generator\<close>

lemma skip_draws_funpow: "skip_draws g n s = ((snd \<circ> gen_random g) ^^ n) s"
  by (induction n arbitrary: s) (simp_all add: funpow_swap1)

lemma skip_draws_add: "skip_draws g m (skip_draws g n s) = skip_draws g (n + m) s"
  by (simp add: skip_draws_funpow funpow_add add.commute)

lemma ParaRandom_random_fst:
  "fst (ParaRandom_random g p) = fst (gen_random g (pr_rng p))"
  by (simp add: ParaRandom_random_def Let_def split: prod.splits)

lemma ParaRandom_random_rng:
  "pr_rng (snd (ParaRandom_random g p)) = skip_draws g (Suc (nat (pr_num_proc p))) (pr_rng p)"
  by (simp add: ParaRandom_random_def Let_def split: prod.splits)

lemma ParaRandom_random_num_proc:
  "pr_num_proc (snd (ParaRandom_random g p)) = pr_num_proc p"
  by (simp add: ParaRandom_random_def Let_def split: prod.splits)

lemma base_draw_skip: "base_draw g (skip_draws g m s) k = base_draw g s (k + m)"
  by (simp add: base_draw_def skip_draws_funpow funpow_add)

text \<open>
  What the code does: each call takes one draw and then makes \<open>num_proc\<close> more, so
  successive results are \<open>num_proc + 1\<close> apart in the base sequence.
\<close>

lemma nth_random_stride:
  "nth_random g n p = base_draw g (pr_rng p) (n * Suc (nat (pr_num_proc p)))"
proof (induction n arbitrary: p)
  case 0
  show ?case by (simp add: ParaRandom_random_fst base_draw_def)
next
  case (Suc n)
  have "nth_random g (Suc n) p =
        base_draw g (skip_draws g (Suc (nat (pr_num_proc p))) (pr_rng p))
          (n * Suc (nat (pr_num_proc p)))"
    by (simp add: Suc.IH ParaRandom_random_rng ParaRandom_random_num_proc)
  also have "\<dots> = base_draw g (pr_rng p) (Suc n * Suc (nat (pr_num_proc p)))"
    by (simp only: base_draw_skip mult_Suc add.commute)
  finally show ?case .
qed

lemma nth_random_init:
  "nth_random g n (ParaRandom_init g s P r) = base_draw g s (nat r + n * Suc (nat P))"
proof -
  have "nth_random g n (ParaRandom_init g s P r) =
        base_draw g (skip_draws g (nat r) s) (n * Suc (nat P))"
    by (simp add: nth_random_stride ParaRandom_init_def)
  then show ?thesis
    by (simp only: base_draw_skip add.commute)
qed

text \<open>
  C1. The claim: call \<open>n\<close> of \<^verbatim>\<open>random()\<close> on rank \<open>r\<close> of \<open>P\<close> returns draw
  \<open>r + n * P\<close> of the base sequence, each call discarding \<open>P - 1\<close> draws after the one it
  returns, and \<open>P = 1\<close> being a pass-through. The loop in \<^verbatim>\<open>random()\<close> runs
  \<^verbatim>\<open>range(self._num_proc)\<close>, one draw too many: on the counting generator seeded with 0,
  rank 0 of 2 gets draw 3 (not draw 2) from its second call, and with one process the
  second call returns draw 2 (not draw 1).
\<close>

theorem ParaRandom_stride_off_by_one:
  "nth_random counter_gen 1 (ParaRandom_init counter_gen 0 2 0) = 3 \<and>
   base_draw counter_gen 0 (0 + 1 * 2) = 2 \<and>
   nth_random counter_gen 1 (ParaRandom_init counter_gen 0 1 0) = 2 \<and>
   base_draw counter_gen 0 1 = 1"
  by (simp add: nth_random_init base_draw_def counter_gen_def eval_nat_numeral)

text \<open>
  C8. Constructing the wrapper with \<open>P \<ge> 1\<close> and \<open>0 \<le> r < P\<close> leaves the base generator
  in the state reached after exactly \<open>r\<close> draws, and the first \<^verbatim>\<open>random()\<close> of the new
  instance returns draw \<open>r\<close> (counted from 0) of the undivided base sequence.
\<close>

theorem ParaRandom_init_offset:
  assumes "1 \<le> P" and "0 \<le> r" and "r < P"
  shows "pr_rng (ParaRandom_init g s P r) = ((snd \<circ> gen_random g) ^^ nat r) s \<and>
         nth_random g 0 (ParaRandom_init g s P r) = base_draw g s (nat r)"
  by (simp add: ParaRandom_init_def skip_draws_funpow ParaRandom_random_fst base_draw_def)

theorem ParaRandom_init_offset_witness:
  "(1::int) \<le> 3 \<and> (0::int) \<le> 2 \<and> (2::int) < 3 \<and>
   pr_rng (ParaRandom_init counter_gen 10 3 2) = 12 \<and>
   nth_random counter_gen 0 (ParaRandom_init counter_gen 10 3 2) = 12"
  using ParaRandom_init_offset [of 3 2 counter_gen 10]
  by (simp add: base_draw_def counter_gen_def eval_nat_numeral)

text \<open>
  C9. \<^verbatim>\<open>seed(value)\<close> changes nothing but the state of the wrapped generator, which it
  reseeds; the next \<^verbatim>\<open>random()\<close> returns draw 0 of the reseeded base sequence whatever
  the rank of the instance, so two instances whose base generators reach the same state
  by reseeding with the same value return the same first draw.
\<close>

theorem ParaRandom_seed_resets:
  "ParaRandom_seed g v p = p\<lparr>pr_rng := gen_seed g v (pr_rng p)\<rparr> \<and>
   nth_random g 0 (ParaRandom_seed g v p) = base_draw g (gen_seed g v (pr_rng p)) 0 \<and>
   (gen_seed g v (pr_rng p) = gen_seed g v (pr_rng q) \<longrightarrow>
      nth_random g 0 (ParaRandom_seed g v p) = nth_random g 0 (ParaRandom_seed g v q))"
  by (simp add: ParaRandom_seed_def ParaRandom_random_fst base_draw_def)

theorem ParaRandom_seed_resets_witness:
  "gen_seed counter_gen 5 (pr_rng (ParaRandom_init counter_gen 0 2 0)) =
     gen_seed counter_gen 5 (pr_rng (ParaRandom_init counter_gen 0 2 1)) \<and>
   nth_random counter_gen 0 (ParaRandom_seed counter_gen 5 (ParaRandom_init counter_gen 0 2 1)) = 5 \<and>
   nth_random counter_gen 0 (ParaRandom_seed counter_gen 5 (ParaRandom_init counter_gen 0 2 0)) = 5"
  using ParaRandom_seed_resets [of counter_gen 5 "ParaRandom_init counter_gen 0 2 1"
      "ParaRandom_init counter_gen 0 2 0"]
  by (simp add: base_draw_def counter_gen_def ParaRandom_seed_def ParaRandom_init_def
      ParaRandom_random_fst)

section \<open>Properties of the communicator stack\<close>

text \<open>
  C5, as stated, fails: \<^verbatim>\<open>pop\<close> on a stack holding one communicator succeeds and leaves
  the stack empty.
\<close>

theorem pop_last_counterexample:
  "pop None \<lparr>ParallelisationStack = [FakeCommunicator 0], next_oid = 1, barriers = []\<rparr> =
     (Inr (FakeCommunicator 0), \<lparr>ParallelisationStack = [], next_oid = 1, barriers = []\<rparr>)"
  by (simp add: pop_def)

text \<open>
  C5, amended. \<^verbatim>\<open>pop(expected)\<close> fails with IndexError iff the stack is empty before the
  call, and then changes nothing. On a non-empty stack it removes the top communicator,
  also when that is the last one; it fails with AssertionError iff \<open>expected\<close> is supplied
  and is not identical to the removed communicator (the removal has happened by then),
  and otherwise returns the removed communicator.
\<close>

theorem pop_contract:
  "(fst (pop expected w) = Inl IndexError \<longleftrightarrow> ParallelisationStack w = []) \<and>
   (fst (pop expected w) = Inl AssertionError \<longleftrightarrow>
      ParallelisationStack w \<noteq> [] \<and>
      (\<exists>c. expected = Some c \<and> \<not> is_same (last (ParallelisationStack w)) c)) \<and>
   (ParallelisationStack w \<noteq> [] \<longrightarrow>
      snd (pop expected w) = w\<lparr>ParallelisationStack := butlast (ParallelisationStack w)\<rparr>) \<and>
   (ParallelisationStack w \<noteq> [] \<and> fst (pop expected w) \<noteq> Inl AssertionError \<longrightarrow>
      fst (pop expected w) = Inr (last (ParallelisationStack w))) \<and>
   (ParallelisationStack w = [] \<longrightarrow> snd (pop expected w) = w)"
  by (cases "ParallelisationStack w"; cases expected) (simp_all add: pop_def Let_def)

theorem pop_contract_witness:
  "fst (pop None \<lparr>ParallelisationStack = [MPIComm 3 4 2], next_oid = 4, barriers = []\<rparr>)
     = Inr (MPIComm 3 4 2) \<and>
   snd (pop None \<lparr>ParallelisationStack = [MPIComm 3 4 2], next_oid = 4, barriers = []\<rparr>)
     = \<lparr>ParallelisationStack = [], next_oid = 4, barriers = []\<rparr>"
  using pop_contract [of None "\<lparr>ParallelisationStack = [MPIComm 3 4 2], next_oid = 4, barriers = []\<rparr>"]
  by simp

section \<open>Properties of the group splitter\<close>

text \<open>
  C6, as stated, fails where the two boundary cases meet: for a communicator of size 1
  both \<open>group_count = 1\<close> and \<open>group_count = S\<close> hold, the first branch is taken, and
  the result is (a new degenerate communicator, the original), not (the original, a
  degenerate communicator).
\<close>

theorem getSplitCommunicators_overlap_counterexample:
  "min 1 (Get_size (MPIComm 0 1 0)) = Get_size (MPIComm 0 1 0) \<and>
   getSplitCommunicators 1 \<lparr>ParallelisationStack = [MPIComm 0 1 0], next_oid = 1, barriers = []\<rparr> =
     (Inr (FakeCommunicator 1, MPIComm 0 1 0),
      \<lparr>ParallelisationStack = [MPIComm 0 1 0], next_oid = 2, barriers = []\<rparr>) \<and>
   FakeCommunicator 1 \<noteq> MPIComm 0 1 0"
  by (simp add: getSplitCommunicators_def getCommunicator_def new_FakeCommunicator_def)

text \<open>
  C6, amended. With a current communicator of size \<open>S\<close>, the call fails with an assertion
  violation iff \<open>J \<le> 0\<close>. Otherwise, with \<open>group_count = min J S\<close>: if \<open>group_count = 1\<close>
  it returns (a new degenerate one-process communicator, the original communicator);
  if \<open>group_count \<noteq> 1\<close> and \<open>group_count = S\<close> it returns (the original communicator,
  a new degenerate one-process communicator).
\<close>

theorem getSplitCommunicators_boundary:
  assumes "ParallelisationStack w \<noteq> []"
  shows "(fst (getSplitCommunicators J w) = Inl AssertionError \<longleftrightarrow> J \<le> 0) \<and>
     (0 < J \<and> min J (Get_size (last (ParallelisationStack w))) = 1 \<longrightarrow>
        getSplitCommunicators J w =
          (Inr (FakeCommunicator (next_oid w), last (ParallelisationStack w)),
           w\<lparr>next_oid := Suc (next_oid w)\<rparr>)) \<and>
     (0 < J \<and> min J (Get_size (last (ParallelisationStack w))) \<noteq> 1 \<and>
      min J (Get_size (last (ParallelisationStack w))) = Get_size (last (ParallelisationStack w)) \<longrightarrow>
        getSplitCommunicators J w =
          (Inr (last (ParallelisationStack w), FakeCommunicator (next_oid w)),
           w\<lparr>next_oid := Suc (next_oid w)\<rparr>))"
  using assms
  by (cases "ParallelisationStack w")
     (auto simp add: getSplitCommunicators_def getCommunicator_def new_FakeCommunicator_def
        Split_def Let_def)

theorem getSplitCommunicators_boundary_witness:
  "fst (getSplitCommunicators 0 \<lparr>ParallelisationStack = [MPIComm 0 4 2], next_oid = 1, barriers = []\<rparr>)
     = Inl AssertionError \<and>
   getSplitCommunicators 1 \<lparr>ParallelisationStack = [MPIComm 0 4 2], next_oid = 1, barriers = []\<rparr> =
     (Inr (FakeCommunicator 1, MPIComm 0 4 2),
      \<lparr>ParallelisationStack = [MPIComm 0 4 2], next_oid = 2, barriers = []\<rparr>) \<and>
   getSplitCommunicators 9 \<lparr>ParallelisationStack = [MPIComm 0 4 2], next_oid = 1, barriers = []\<rparr> =
     (Inr (MPIComm 0 4 2, FakeCommunicator 1),
      \<lparr>ParallelisationStack = [MPIComm 0 4 2], next_oid = 2, barriers = []\<rparr>)"
  using getSplitCommunicators_boundary [of "\<lparr>ParallelisationStack = [MPIComm 0 4 2], next_oid = 1, barriers = []\<rparr>" 0]
    getSplitCommunicators_boundary [of "\<lparr>ParallelisationStack = [MPIComm 0 4 2], next_oid = 1, barriers = []\<rparr>" 1]
    getSplitCommunicators_boundary [of "\<lparr>ParallelisationStack = [MPIComm 0 4 2], next_oid = 1, barriers = []\<rparr>" 9]
  by simp

lemma index_of_less: "x \<in> set xs \<Longrightarrow> index_of x xs < length xs"
  by (induction xs) auto

lemma set_split_members:
  "set (split_members S colour key r) = {q. 0 \<le> q \<and> q < S \<and> colour q = colour r}"
  by (auto simp add: split_members_def)

lemma length_split_members:
  "length (split_members S colour key r) = length (filter (\<lambda>q. colour q = colour r) [0..S - 1])"
  by (simp add: split_members_def)

lemma wf_comm_Split:
  assumes "wf_comm c"
  shows "wf_comm (fst (Split c colour key w))"
proof -
  have "Get_rank c \<in> set (split_members (Get_size c) colour key (Get_rank c))"
    using assms by (simp add: set_split_members wf_comm_def)
  then show ?thesis
    by (simp add: Split_def Let_def wf_comm_def index_of_less)
qed

lemma wf_comm_Fake: "wf_comm (FakeCommunicator n)"
  by (simp add: wf_comm_def)

lemma getSplitCommunicators_wf:
  assumes "ParallelisationStack w \<noteq> []" and "wf_comm (last (ParallelisationStack w))"
    and "0 < J"
  shows "\<exists>cpus leftover w1. getSplitCommunicators J w = (Inr (cpus, leftover), w1) \<and>
           wf_comm cpus \<and> wf_comm leftover"
proof -
  let ?c = "last (ParallelisationStack w)"
  have comm: "getCommunicator w = Inr ?c"
    using assms(1) by (cases "ParallelisationStack w") (simp_all add: getCommunicator_def)
  show ?thesis
    using assms(2,3) wf_comm_Split [OF assms(2)]
    by (simp add: getSplitCommunicators_def comm Let_def new_FakeCommunicator_def
        wf_comm_Fake split_beta)
qed

lemma succ_div_mod:
  fixes a J :: int
  assumes "0 < J" and "0 \<le> a"
  shows "(a + 1) div J = a div J + (if a mod J + 1 = J then 1 else 0)"
    and "(a + 1) mod J = (if a mod J + 1 = J then 0 else a mod J + 1)"
proof -
  have bounds: "0 \<le> a mod J" "a mod J < J" using assms by simp_all
  have eq: "a + 1 = J * (a div J) + (a mod J + 1)" by simp
  show "(a + 1) div J = a div J + (if a mod J + 1 = J then 1 else 0)"
  proof (cases "a mod J + 1 = J")
    case True
    then have "a + 1 = J * (a div J + 1) + 0" using eq by (simp add: algebra_simps)
    then have "(a + 1) div J = a div J + 1"
      using assms(1) by (metis add.right_neutral nonzero_mult_div_cancel_left less_irrefl)
    with True show ?thesis by simp
  next
    case False
    with bounds have "a mod J + 1 < J" by simp
    with eq bounds have "(a + 1) div J = a div J"
      by (metis int_div_pos_eq add_nonneg_nonneg zero_le_one)
    with False show ?thesis by simp
  qed
  show "(a + 1) mod J = (if a mod J + 1 = J then 0 else a mod J + 1)"
  proof (cases "a mod J + 1 = J")
    case True
    then have "a + 1 = J * (a div J + 1) + 0" using eq by (simp add: algebra_simps)
    then have "(a + 1) mod J = 0"
      by (metis add.right_neutral mod_mult_self1_is_0)
    with True show ?thesis by simp
  next
    case False
    with bounds have "a mod J + 1 < J" by simp
    with eq bounds have "(a + 1) mod J = a mod J + 1"
      by (metis int_mod_pos_eq add_nonneg_nonneg zero_le_one)
    with False show ?thesis by simp
  qed
qed

lemma count_residue:
  fixes J c :: int
  assumes "0 < J" and "0 \<le> c" and "c < J"
  shows "int (length (filter (\<lambda>q. q mod J = c) [0..int n - 1])) =
         int n div J + (if c < int n mod J then 1 else 0)"
proof (induction n)
  case 0
  show ?case using assms by simp
next
  case (Suc n)
  have step: "[0..int (Suc n) - 1] = [0..int n - 1] @ [int n]"
    by (simp add: upto_rec2)
  have len: "int (length (filter (\<lambda>q. q mod J = c) [0..int (Suc n) - 1])) =
             int (length (filter (\<lambda>q. q mod J = c) [0..int n - 1])) +
             (if int n mod J = c then 1 else 0)"
    unfolding step by simp
  have nn: "(0::int) \<le> int n" by simp
  have d: "int (Suc n) div J = int n div J + (if int n mod J + 1 = J then 1 else 0)"
    using succ_div_mod(1) [OF assms(1) nn] by (simp add: add.commute)
  have m: "int (Suc n) mod J = (if int n mod J + 1 = J then 0 else int n mod J + 1)"
    using succ_div_mod(2) [OF assms(1) nn] by (simp add: add.commute)
  have bounds: "0 \<le> int n mod J" "int n mod J < J" using assms(1) by simp_all
  show ?case
    unfolding len d m Suc.IH using assms bounds by (auto split: if_splits)
qed

lemma set_inner_group:
  "set (inner_group S G r) = {q. 0 \<le> q \<and> q < S \<and> q mod G = r mod G}"
  by (simp add: inner_group_def set_split_members)

lemma set_outer_group:
  "set (outer_group S G r) = {q. 0 \<le> q \<and> q < S \<and> q div G = r div G}"
  by (simp add: outer_group_def set_split_members)

lemma split_members_rank_order:
  "sorted (split_members S colour (\<lambda>rank. rank) r) \<and>
   distinct (split_members S colour (\<lambda>rank. rank) r)"
  using sorted_sort_key [of "\<lambda>rank::int. rank" "filter (\<lambda>q. colour q = colour r) [0..S - 1]"]
  by (simp add: split_members_def)

lemma groups_partition:
  fixes f :: "int \<Rightarrow> int" and S :: int
  defines "groups \<equiv> (\<lambda>r. {q. 0 \<le> q \<and> q < S \<and> f q = f r}) ` {0..S - 1}"
  shows "\<Union> groups = {0..S - 1}"
    and "{} \<notin> groups"
    and "\<forall>A\<in>groups. \<forall>B\<in>groups. A \<noteq> B \<longrightarrow> A \<inter> B = {}"
    and "0 \<le> r \<Longrightarrow> r < S \<Longrightarrow> \<exists>!A. A \<in> groups \<and> r \<in> A"
proof -
  show "\<Union> groups = {0..S - 1}" unfolding groups_def by auto
  show "{} \<notin> groups" unfolding groups_def by auto
  show disj: "\<forall>A\<in>groups. \<forall>B\<in>groups. A \<noteq> B \<longrightarrow> A \<inter> B = {}"
    unfolding groups_def by auto
  show "\<exists>!A. A \<in> groups \<and> r \<in> A" if "0 \<le> r" "r < S"
  proof (rule ex1I [of _ "{q. 0 \<le> q \<and> q < S \<and> f q = f r}"])
    show "{q. 0 \<le> q \<and> q < S \<and> f q = f r} \<in> groups \<and> r \<in> {q. 0 \<le> q \<and> q < S \<and> f q = f r}"
      using that unfolding groups_def by auto
  next
    fix A assume "A \<in> groups \<and> r \<in> A"
    then show "A = {q. 0 \<le> q \<and> q < S \<and> f q = f r}"
      unfolding groups_def by auto
  qed
qed

lemma inner_groups_eq:
  "inner_groups S G = (\<lambda>r. {q. 0 \<le> q \<and> q < S \<and> q mod G = r mod G}) ` {0..S - 1}"
  by (simp add: inner_groups_def set_inner_group)

lemma outer_groups_eq:
  "outer_groups S G = (\<lambda>r. {q. 0 \<le> q \<and> q < S \<and> q div G = r div G}) ` {0..S - 1}"
  by (simp add: outer_groups_def set_outer_group)

lemma length_inner_group:
  assumes "0 < G" and "0 \<le> S"
  shows "int (length (inner_group S G r)) = S div G + (if r mod G < S mod G then 1 else 0)"
proof -
  have "0 \<le> r mod G" "r mod G < G" using assms(1) by simp_all
  from count_residue [OF assms(1) this, of "nat S"] assms(2)
  show ?thesis by (simp add: inner_group_def length_split_members)
qed

lemma inner_group_sizes:
  assumes "0 < G" and "0 \<le> S"
  shows "\<bar>int (length (inner_group S G r)) - int (length (inner_group S G r'))\<bar> \<le> 1"
  by (simp add: length_inner_group [OF assms])

text \<open>
  C7. In a communicator of size \<open>S\<close> with \<open>1 < min J S < S\<close>, the call of the process
  with rank \<open>r\<close> returns the outer communicator split off with colour
  \<open>rank div group_count\<close> and the inner one with colour \<open>rank mod group_count\<close>, both
  with key \<open>rank\<close>, where \<open>group_count = min J S\<close>. Their sizes and ranks are those of
  the member lists: the ranks of equal colour, in rank order. Every rank lies in exactly
  one inner group and in exactly one outer group, the inner groups are non-empty,
  pairwise disjoint and cover all ranks, and the sizes of two inner groups differ by at
  most 1.
\<close>

theorem getSplitCommunicators_middle:
  assumes "1 < min J S" and "min J S < S"
    and "ParallelisationStack w \<noteq> []" and "last (ParallelisationStack w) = MPIComm c S r"
    and "0 \<le> r" and "r < S"
  shows "getSplitCommunicators J w =
           (Inr (fst (Split (MPIComm c S r) (\<lambda>rank. rank div min J S) (\<lambda>rank. rank) w),
                 fst (Split (MPIComm c S r) (\<lambda>rank. rank mod min J S) (\<lambda>rank. rank)
                        (w\<lparr>next_oid := Suc (next_oid w)\<rparr>))),
            w\<lparr>next_oid := Suc (Suc (next_oid w))\<rparr>) \<and>
         (\<exists>next sub w'. getSplitCommunicators J w = (Inr (next, sub), w') \<and>
            Get_size next = int (length (outer_group S (min J S) r)) \<and>
            Get_rank next = int (index_of r (outer_group S (min J S) r)) \<and>
            Get_size sub = int (length (inner_group S (min J S) r)) \<and>
            Get_rank sub = int (index_of r (inner_group S (min J S) r))) \<and>
         set (outer_group S (min J S) r) = {q. 0 \<le> q \<and> q < S \<and> q div min J S = r div min J S} \<and>
         set (inner_group S (min J S) r) = {q. 0 \<le> q \<and> q < S \<and> q mod min J S = r mod min J S} \<and>
         sorted (outer_group S (min J S) r) \<and> distinct (outer_group S (min J S) r) \<and>
         sorted (inner_group S (min J S) r) \<and> distinct (inner_group S (min J S) r) \<and>
         (\<exists>!A. A \<in> inner_groups S (min J S) \<and> r \<in> A) \<and>
         (\<exists>!A. A \<in> outer_groups S (min J S) \<and> r \<in> A) \<and>
         \<Union> (inner_groups S (min J S)) = {0..S - 1} \<and>
         {} \<notin> inner_groups S (min J S) \<and>
         (\<forall>A\<in>inner_groups S (min J S). \<forall>B\<in>inner_groups S (min J S). A \<noteq> B \<longrightarrow> A \<inter> B = {}) \<and>
         (\<forall>r'. 0 \<le> r' \<and> r' < S \<longrightarrow>
            \<bar>int (length (inner_group S (min J S) r)) - int (length (inner_group S (min J S) r'))\<bar> \<le> 1)"
proof -
  let ?G = "min J S"
  have G: "0 < ?G" "?G \<noteq> 1" "?G \<noteq> S" "0 < J" "0 \<le> S" using assms(1,2) by auto
  have comm: "getCommunicator w = Inr (MPIComm c S r)"
    using assms(3,4) by (cases "ParallelisationStack w") (simp_all add: getCommunicator_def)
  have code: "getSplitCommunicators J w =
           (Inr (fst (Split (MPIComm c S r) (\<lambda>rank. rank div ?G) (\<lambda>rank. rank) w),
                 fst (Split (MPIComm c S r) (\<lambda>rank. rank mod ?G) (\<lambda>rank. rank)
                        (w\<lparr>next_oid := Suc (next_oid w)\<rparr>))),
            w\<lparr>next_oid := Suc (Suc (next_oid w))\<rparr>)"
  proof -
    have "min J S = J" "1 < J" "J < S" using assms(1,2) by auto
    then show ?thesis
      by (simp add: getSplitCommunicators_def comm Let_def Split_def)
  qed
  have comms: "\<exists>next sub w'. getSplitCommunicators J w = (Inr (next, sub), w') \<and>
            Get_size next = int (length (outer_group S ?G r)) \<and>
            Get_rank next = int (index_of r (outer_group S ?G r)) \<and>
            Get_size sub = int (length (inner_group S ?G r)) \<and>
            Get_rank sub = int (index_of r (inner_group S ?G r))"
    unfolding code by (simp add: Split_def Let_def inner_group_def outer_group_def)
  have order: "sorted (outer_group S ?G r) \<and> distinct (outer_group S ?G r) \<and>
               sorted (inner_group S ?G r) \<and> distinct (inner_group S ?G r)"
    using split_members_rank_order by (simp add: inner_group_def outer_group_def)
  have one_inner: "\<exists>!A. A \<in> inner_groups S ?G \<and> r \<in> A"
    unfolding inner_groups_eq using assms(5,6) by (rule groups_partition(4))
  have one_outer: "\<exists>!A. A \<in> outer_groups S ?G \<and> r \<in> A"
    unfolding outer_groups_eq using assms(5,6) by (rule groups_partition(4))
  have part: "\<Union> (inner_groups S ?G) = {0..S - 1}" "{} \<notin> inner_groups S ?G"
    "\<forall>A\<in>inner_groups S ?G. \<forall>B\<in>inner_groups S ?G. A \<noteq> B \<longrightarrow> A \<inter> B = {}"
    unfolding inner_groups_eq by (rule groups_partition)+
  have sizes: "\<forall>r'. 0 \<le> r' \<and> r' < S \<longrightarrow>
            \<bar>int (length (inner_group S ?G r)) - int (length (inner_group S ?G r'))\<bar> \<le> 1"
    using inner_group_sizes [OF G(1) G(5)] by blast
  show ?thesis
    using code comms order one_inner one_outer part sizes
    by (simp only: set_inner_group set_outer_group simp_thms)
qed

theorem getSplitCommunicators_middle_witness:
  "(1::int) < min 2 5 \<and> min 2 5 < (5::int) \<and>
   getSplitCommunicators 2 \<lparr>ParallelisationStack = [MPIComm 0 5 3], next_oid = 1, barriers = []\<rparr> =
     (Inr (MPIComm 1 2 1, MPIComm 2 2 1),
      \<lparr>ParallelisationStack = [MPIComm 0 5 3], next_oid = 3, barriers = []\<rparr>) \<and>
   inner_group 5 (min 2 5) 3 = [1, 3] \<and>
   (\<exists>!A. A \<in> inner_groups 5 (min 2 5) \<and> 3 \<in> A) \<and>
   \<bar>int (length (inner_group 5 (min 2 5) 3)) - int (length (inner_group 5 (min 2 5) 4))\<bar> \<le> 1"
proof -
  let ?w = "\<lparr>ParallelisationStack = [MPIComm 0 5 3], next_oid = 1, barriers = []\<rparr>"
  have h1: "(1::int) < min 2 5" and h2: "min 2 5 < (5::int)" by simp_all
  have h3: "ParallelisationStack ?w \<noteq> []" by simp
  have h4: "last (ParallelisationStack ?w) = MPIComm 0 5 3" by simp
  have h5: "(0::int) \<le> 3" and h6: "(3::int) < 5" by simp_all
  note t = getSplitCommunicators_middle [OF h1 h2 h3 h4 h5 h6]
  have ev: "fst (Split (MPIComm 0 5 3) (\<lambda>rank. rank div min 2 5) (\<lambda>rank. rank) ?w) = MPIComm 1 2 1"
    "fst (Split (MPIComm 0 5 3) (\<lambda>rank. rank mod min 2 5) (\<lambda>rank. rank)
       (?w\<lparr>next_oid := Suc (next_oid ?w)\<rparr>)) = MPIComm 2 2 1"
    by code_simp+
  have code: "getSplitCommunicators 2 ?w =
     (Inr (MPIComm 1 2 1, MPIComm 2 2 1),
      \<lparr>ParallelisationStack = [MPIComm 0 5 3], next_oid = 3, barriers = []\<rparr>)"
    using t [THEN conjunct1] unfolding ev by simp
  have members: "inner_group 5 (min 2 5) 3 = [1, 3]" by code_simp
  have one: "\<exists>!A. A \<in> inner_groups 5 (min 2 5) \<and> 3 \<in> A"
    using t by (elim conjE)
  have "\<forall>r'. 0 \<le> r' \<and> r' < 5 \<longrightarrow>
      \<bar>int (length (inner_group 5 (min 2 5) 3)) - int (length (inner_group 5 (min 2 5) r'))\<bar> \<le> 1"
    using t by (elim conjE)
  then have sz: "\<bar>int (length (inner_group 5 (min 2 5) 3)) - int (length (inner_group 5 (min 2 5) 4))\<bar> \<le> 1"
    by simp
  show ?thesis using h1 h2 code members one sz by (intro conjI)
qed

section \<open>Properties of the work distributor\<close>


lemma set_stripe: "set (stripe g s N) = {k. 0 \<le> k \<and> k < N \<and> g \<le> k \<and> (k - g) mod s = 0}"
  by (auto simp add: stripe_def)

lemma sorted_stripe: "sorted (stripe g s N)"
  by (simp add: stripe_def sorted_wrt_filter)

lemma distinct_stripe: "distinct (stripe g s N)"
  by (simp add: stripe_def)

lemma stripe_empty: "N \<le> g \<Longrightarrow> stripe g s N = []"
  by (auto simp add: stripe_def filter_empty_conv)

lemma stripe_step:
  assumes "0 \<le> i" and "i < N" and "0 < s"
  shows "stripe i s N = i # stripe (i + s) s N"
proof (rule sorted_distinct_set_unique)
  show "sorted (stripe i s N)" by (rule sorted_stripe)
  show "distinct (stripe i s N)" by (rule distinct_stripe)
  show "sorted (i # stripe (i + s) s N)"
    using assms by (auto simp add: sorted_stripe set_stripe)
  show "distinct (i # stripe (i + s) s N)"
    using assms by (auto simp add: distinct_stripe set_stripe)
  show "set (stripe i s N) = set (i # stripe (i + s) s N)"
  proof -
    have far: "i + s \<le> k" if "i \<le> k" "s dvd (k - i)" "k \<noteq> i" for k
    proof -
      from that have "0 < k - i" by simp
      with that(2) have "s \<le> k - i" by (rule zdvd_imp_le)
      then show ?thesis by simp
    qed
    have shift: "s dvd (k - (i + s)) \<longleftrightarrow> s dvd (k - i)" for k
    proof -
      have "k - i = (k - (i + s)) + s" by simp
      then show ?thesis by (metis dvd_add_triv_right_iff)
    qed
    show ?thesis
      using assms far by (auto simp add: set_stripe mod_eq_0_iff_dvd shift)
  qed
qed

lemma stripe_cover:
  assumes "0 < s" and "0 \<le> k" and "k < N"
  shows "\<exists>!g. 0 \<le> g \<and> g < s \<and> k \<in> set (stripe g s N)"
proof (rule ex1I [of _ "k mod s"])
  have "k mod s \<le> k" using assms by (simp add: zmod_le_nonneg_dividend)
  moreover have "(k - k mod s) mod s = 0" by (simp add: mod_diff_right_eq)
  ultimately show "0 \<le> k mod s \<and> k mod s < s \<and> k \<in> set (stripe (k mod s) s N)"
    using assms by (simp add: set_stripe)
next
  fix g assume g: "0 \<le> g \<and> g < s \<and> k \<in> set (stripe g s N)"
  then have "(k - g) mod s = 0" by (simp add: set_stripe)
  then have "k mod s = g mod s"
    by (metis mod_eq_0_iff_dvd mod_eq_dvd_iff)
  with g show "g = k mod s" by simp
qed

lemma ParallelIter_next_stop:
  "int (length (pi_values it)) \<le> pi_i it \<Longrightarrow>
   ParallelIter_next it w = (Inl StopIteration, it, Barrier (pi_leftover it) w)"
  by (simp add: ParallelIter_next_def Let_def)

lemma ParallelIter_next_item:
  "0 \<le> pi_i it \<Longrightarrow> pi_i it < int (length (pi_values it)) \<Longrightarrow>
   ParallelIter_next it w =
     (Inr (pi_values it ! nat (pi_i it)), it\<lparr>pi_i := pi_i it + Get_size (pi_cpus it)\<rparr>,
      Barrier (pi_leftover it) w)"
  by (simp add: ParallelIter_next_def Let_def py_index_def)

lemma leftover_members_comm:
  assumes "ParallelisationStack w \<noteq> []" and "last (ParallelisationStack w) = MPIComm c S r"
    and "0 < J" and "0 \<le> r" and "r < S"
  shows "\<exists>cpus leftover w'. getSplitCommunicators J w = (Inr (cpus, leftover), w') \<and>
           Get_size leftover = int (length (leftover_members S J r)) \<and>
           r \<in> set (leftover_members S J r)"
proof -
  have comm: "getCommunicator w = Inr (MPIComm c S r)"
    using assms(1,2) by (simp add: getCommunicator_def)
  show ?thesis
    using assms(3,4,5)
    by (simp add: getSplitCommunicators_def comm Let_def new_FakeCommunicator_def Split_def
        leftover_members_def inner_group_def set_split_members)
qed

lemma spmd_step_fixed:
  "spmd_step values S sts = sts \<Longrightarrow> (spmd_step values S ^^ k) sts = sts"
  by (induction k) simp_all

text \<open>
  Where the stride size divides evenly the rounds run to the end: with 4 ranks and 2 items
  every rank is handed one item and leaves its loop by StopIteration.
\<close>

lemma spmd_even_completes:
  "(spmd_step [10, 20 :: nat] 4 ^^ 2) (spmd_start [10, 20] 4) =
     map (\<lambda>r. LoopEnded StopIteration
                 \<lparr>pi_values = [10, 20], pi_leftover = MPIComm 2 2 (r div 2),
                    pi_cpus = MPIComm 1 2 (r mod 2), pi_i = r mod 2 + 2\<rparr>
                 \<lparr>ParallelisationStack = [MPIComm 0 4 r, MPIComm 2 2 (r div 2)],
                    next_oid = 3, barriers = [2, 2]\<rparr>
                 [[10, 20] ! nat (r mod 2)])
       [0..3]"
  by code_simp

text \<open>
  C2. The claim: the items yielded to the rank at stride position \<open>g\<close> of stride size \<open>s\<close>
  are exactly those at \<open>g, g + s, g + 2 s, \<dots>\<close> below \<open>N\<close>, so that the stride positions
  together cover every item. With 7 ranks and 5 items, rank 5 is at stride position 0 of
  stride size 2 and shares its \<open>leftover\<close> communicator with rank 0, whose stride size is
  5. After two rounds rank 0 has left its loop, rank 5 has been handed the items at 0 and
  2 and waits at the barrier of its third \<^verbatim>\<open>next()\<close>, and no rank can move: the item at 4
  is never yielded at stride size 2 (rank 6 is handed the items at 1 and 3).
\<close>

theorem localShareOf_uneven_blocks:
  "start_rank [10, 20, 30, 40, 50 :: nat] 7 5 =
     InNext \<lparr>pi_values = [10, 20, 30, 40, 50], pi_leftover = MPIComm 2 2 1,
              pi_cpus = MPIComm 1 2 0, pi_i = 0\<rparr>
       \<lparr>ParallelisationStack = [MPIComm 0 7 5, MPIComm 2 2 1], next_oid = 3, barriers = []\<rparr> [] \<and>
   map (\<lambda>k. [10, 20, 30, 40, 50 :: nat] ! nat k) (stripe 0 2 5) = [10, 30, 50] \<and>
   (let sts = (spmd_step [10, 20, 30, 40, 50 :: nat] 7 ^^ 2) (spmd_start [10, 20, 30, 40, 50] 7)
    in spmd_step [10, 20, 30, 40, 50] 7 sts = sts \<and>
       waiting (sts ! 5) \<and> yielded (sts ! 5) = [10, 30] \<and>
       waiting (sts ! 6) \<and> yielded (sts ! 6) = [20, 40] \<and>
       \<not> waiting (sts ! 0) \<and> yielded (sts ! 0) = [10] \<and>
       leftover_members 7 5 5 = [0, 5])"
  by code_simp

text \<open>
  C4, as stated, fails: constructing the distributor over an empty list raises the
  assertion of the group splitter (\<open>jobs > 0\<close>); nothing is pushed and nothing is
  iterated.
\<close>

theorem localShareOf_empty_counterexample:
  "localShareOf_init ([]::nat list)
     \<lparr>ParallelisationStack = [FakeCommunicator 0], next_oid = 1, barriers = []\<rparr> =
   (Inl AssertionError,
     \<lparr>ParallelisationStack = [FakeCommunicator 0], next_oid = 1, barriers = []\<rparr>)"
  by (simp add: localShareOf_init_def getSplitCommunicators_def getCommunicator_def)

text \<open>
  C4, amended. With a communicator on the stack, constructing a distributor over a list
  with no items fails with an assertion violation and leaves the state of the process
  unchanged: no communicator is created or pushed, and no barrier is called.
\<close>

theorem localShareOf_empty_fails:
  assumes "ParallelisationStack w \<noteq> []"
  shows "localShareOf_init [] w = (Inl AssertionError, w)"
  using assms
  by (cases "ParallelisationStack w")
     (simp_all add: localShareOf_init_def getSplitCommunicators_def getCommunicator_def)

theorem localShareOf_empty_fails_witness:
  "ParallelisationStack \<lparr>ParallelisationStack = [MPIComm 0 4 2], next_oid = 1, barriers = []\<rparr> \<noteq> [] \<and>
   localShareOf_init ([]::nat list) \<lparr>ParallelisationStack = [MPIComm 0 4 2], next_oid = 1, barriers = []\<rparr>
   = (Inl AssertionError, \<lparr>ParallelisationStack = [MPIComm 0 4 2], next_oid = 1, barriers = []\<rparr>)"
  using localShareOf_empty_fails [of "\<lparr>ParallelisationStack = [MPIComm 0 4 2], next_oid = 1, barriers = []\<rparr>"]
  by simp

text \<open>
  The finaliser undoes the constructor's push: called in a state whose stack is the one
  the constructor left, and provided its \<^verbatim>\<open>Barrier()\<close> on \<open>cpus\<close> returns, it pops
  \<open>leftover\<close>.
\<close>

lemma ParallelIter_del_after_init:
  assumes "ParallelIter_init values cpus leftover w = (it, w1)"
    and "ParallelisationStack w2 = ParallelisationStack w1"
  shows "ParallelIter_del it w2 =
           (Inr leftover,
            w2\<lparr>barriers := barriers w2 @ [oid cpus],
               ParallelisationStack := ParallelisationStack w\<rparr>)"
proof -
  from assms(1) have it: "pi_leftover it = leftover" "pi_cpus it = cpus"
    and "ParallelisationStack w1 = ParallelisationStack w @ [leftover]"
    by (auto simp add: ParallelIter_init_def push_def)
  with assms(2) have st: "ParallelisationStack w2 = ParallelisationStack w @ [leftover]"
    by simp
  show ?thesis
    by (simp add: ParallelIter_del_def pop_def Barrier_def it st is_same_def Let_def)
qed

end
